theory Spec2Isabelle
  imports Main "HOL-Library.Word"
begin

section \<open>The ingest relay of server.js\<close>

text \<open>
  The development embeds the WebSocket publisher handler of \<^verbatim>\<open>src/server.js\<close>
  (lines 44 to 204): the closure variables of one connection are a record, the
  process-wide set \<^verbatim>\<open>activeKeys\<close> is a set of strings, every callback
  registered by the source is a function from the state before to the state after
  together with the list of calls it makes to the outside (socket, child process),
  and an exception that escapes a callback is the left injection of a sum.

  JavaScript strings are modelled by \<^typ>\<open>string\<close>, so code units are
  restricted to the range 0 to 255; of the line terminators that the regular
  expression dot excludes, LF and CR lie in that range.
\<close>

subsection \<open>Values of the runtime\<close>

type_synonym byte = "8 word"

type_synonym buffer = "byte list"

text \<open>
  The values \<^verbatim>\<open>JSON.parse\<close> can return. The handler only observes of a
  number whether it is zero, so a number is abstracted to that bit
  (\<open>JNumber True\<close> is a number other than 0).
\<close>

datatype json =
    JNull
  | JBool bool
  | JNumber bool
  | JString string
  | JArray "json list"
  | JObject "(string \<times> json) list"

text \<open>JavaScript truthiness, as used by \<^verbatim>\<open>&&\<close>, \<^verbatim>\<open>?:\<close> and \<^verbatim>\<open>!\<close>.\<close>

fun truthy :: "json \<Rightarrow> bool" where
  "truthy JNull = False"
| "truthy (JBool b) = b"
| "truthy (JNumber nz) = nz"
| "truthy (JString s) = (s \<noteq> [])"
| "truthy (JArray xs) = True"
| "truthy (JObject kvs) = True"

text \<open>
  Property read \<^verbatim>\<open>v.name\<close> on a value that is not null: \<open>None\<close> is
  \<^verbatim>\<open>undefined\<close>. An object built by \<^verbatim>\<open>JSON.parse\<close> keeps the last of
  several members with the same name.
\<close>

fun get_prop :: "json \<Rightarrow> string \<Rightarrow> json option" where
  "get_prop (JObject kvs) name = map_of (rev kvs) name"
| "get_prop v name = None"

text \<open>
  The two library functions the handler calls on the first message are parameters of
  the model: \<open>toString\<close> is \<^verbatim>\<open>Buffer.prototype.toString()\<close> and
  \<open>parse_text\<close> is \<^verbatim>\<open>JSON.parse\<close> on a string, with \<open>None\<close> for a thrown
  SyntaxError.
\<close>

record runtime =
  toString :: "buffer \<Rightarrow> string"
  parse_text :: "string \<Rightarrow> json option"

text \<open>
  \<^verbatim>\<open>JSON.parse(x)\<close> first converts its argument to a string; for a Buffer that
  conversion calls the Buffer's own \<^verbatim>\<open>toString()\<close>. The listener of line 66
  takes the payload and the flag \<^verbatim>\<open>isBinary\<close>, and the payload is a Buffer
  for a text message as for a binary one.
\<close>

datatype jsarg = Str string | Buf buffer

definition ToString :: "runtime \<Rightarrow> jsarg \<Rightarrow> string" where
  "ToString rt a = (case a of Str s \<Rightarrow> s | Buf b \<Rightarrow> toString rt b)"

definition JSON_parse :: "runtime \<Rightarrow> jsarg \<Rightarrow> json option" where
  "JSON_parse rt a = parse_text rt (ToString rt a)"

subsection \<open>The key pattern (line 84)\<close>

definition line_terminator :: "char \<Rightarrow> bool" where
  "line_terminator c \<longleftrightarrow> c = CHR 0x0A \<or> c = CHR 0x0D"

text \<open>
  One attempt of \<^verbatim>\<open>/live2\/(.+)$/\<close> at the start of \<open>s\<close>: the literal
  \<^verbatim>\<open>live2/\<close>, then one or more characters other than line terminators up to
  the end of the input. The result is capture group 1.
\<close>

definition match_here :: "string \<Rightarrow> string option" where
  "match_here s =
     (if take 6 s = ''live2/'' then
        (let r = drop 6 s in
         if r \<noteq> [] \<and> list_all (\<lambda>c. \<not> line_terminator c) r then Some r else None)
      else None)"

text \<open>\<^verbatim>\<open>rtmpUrl.match(/live2\/(.+)$/)\<close>: the leftmost position where an attempt succeeds.\<close>

fun match_live2 :: "string \<Rightarrow> string option" where
  "match_live2 [] = None"
| "match_live2 (c # cs) =
     (case match_here (c # cs) of
        Some k \<Rightarrow> Some k
      | None \<Rightarrow> match_live2 cs)"

subsection \<open>The header check (line 114)\<close>

definition sniff :: "buffer \<Rightarrow> bool" where
  "sniff data \<longleftrightarrow>
     length data > 4 \<and> data ! 0 = 0x1A \<and> data ! 1 = 0x45
       \<and> data ! 2 = 0xDF \<and> data ! 3 = 0xA3"

subsection \<open>Session state and the calls a handler makes\<close>

text \<open>The child process handle held in \<^verbatim>\<open>ffmpeg\<close>, tagged with its destination.\<close>

datatype child = ChildProcess "string option"

record session =
  ffmpeg :: "child option"
  started :: bool
  lastChunkAt :: int
  ffmpegError :: bool
  initialBuffer :: "buffer list"
  headerReceived :: bool
  rtmpKey :: "string option"
  ws_rtmpUrl :: "string option"
  idleInterval :: bool

text \<open>The closure variables at \<^verbatim>\<open>wss.on('connection')\<close>, lines 47 to 64.\<close>

definition new_session :: "int \<Rightarrow> session" where
  "new_session now =
     \<lparr> ffmpeg = None, started = False, lastChunkAt = now, ffmpegError = False,
       initialBuffer = [], headerReceived = False, rtmpKey = None,
       ws_rtmpUrl = None, idleInterval = True \<rparr>"

datatype notice =
    Ok string
  | Error string
  | ErrorMessage string string
  | ErrorExit string "int option" "string option"

datatype effect =
    Send notice
  | Close
  | Spawn "string list" "string option"
  | StdinWrite buffer
  | StdinEnd
  | Kill string
  | ClearInterval

datatype exn = TypeError

definition IDLE_TIMEOUT_MS :: int where
  "IDLE_TIMEOUT_MS = 20000"

text \<open>The fixed part of \<^verbatim>\<open>ffArgs\<close>, lines 117 to 136; \<^verbatim>\<open>ws.rtmpUrl\<close> follows it.\<close>

definition ffArgs :: "string list" where
  "ffArgs =
     [''-fflags'', ''+nobuffer'', ''-fflags'', ''+genpts'', ''-hide_banner'',
      ''-loglevel'', ''info'', ''-f'', ''webm'', ''-i'', ''pipe:0'',
      ''-c:v'', ''libx264'', ''-preset'', ''fast'', ''-tune'', ''zerolatency'',
      ''-r'', ''30'', ''-g'', ''60'', ''-b:v'', ''2000k'', ''-maxrate'', ''2200k'',
      ''-bufsize'', ''3000k'', ''-c:a'', ''aac'', ''-ar'', ''44100'', ''-b:a'', ''128k'',
      ''-f'', ''flv'', ''-flvflags'', ''no_duration_filesize'']"

text \<open>\<^verbatim>\<open>!rtmpKey\<close> on a value that is null or a string.\<close>

definition falsy_key :: "string option \<Rightarrow> bool" where
  "falsy_key k \<longleftrightarrow> (case k of None \<Rightarrow> True | Some s \<Rightarrow> s = [])"

text \<open>
  What the stream \<^verbatim>\<open>ffmpeg.stdin\<close> does with the write of line 176, decided by
  the environment: it is not writable, it takes the chunk, or the call throws.
\<close>

datatype stdin = Unwritable | Accepts | Throws string

type_synonym outcome = "exn + (string set \<times> session \<times> effect list)"

subsection \<open>The message handler (lines 66 to 184)\<close>

text \<open>
  Lines 68 to 105, the branch \<^verbatim>\<open>!started\<close>. A truthy \<^verbatim>\<open>rtmpUrl\<close> that is
  not a string has no \<^verbatim>\<open>match\<close> method, and the call throws out of the
  handler before anything is assigned.
\<close>

definition init_message :: "runtime \<Rightarrow> string set \<Rightarrow> session \<Rightarrow> buffer \<Rightarrow> bool \<Rightarrow> outcome" where
  "init_message rt keys s msg isBinary =
     (case JSON_parse rt (if isBinary then Str (toString rt msg) else Buf msg) of
        None \<Rightarrow> Inr (keys, s, [Send (Error ''Invalid init JSON''), Close])
      | Some init \<Rightarrow>
          (let rtmpUrl =
                 (if truthy init \<and> (case get_prop init ''rtmpUrl'' of None \<Rightarrow> False | Some v \<Rightarrow> truthy v)
                  then the (get_prop init ''rtmpUrl'') else JNull)
           in if \<not> truthy rtmpUrl then
                Inr (keys, s, [Send (Error ''Missing rtmpUrl in init message''), Close])
              else
                (case rtmpUrl of
                   JString url \<Rightarrow>
                     (let keyMatch = match_live2 url;
                          s1 = s\<lparr>rtmpKey := keyMatch\<rparr>
                      in if falsy_key (rtmpKey s1) then
                           Inr (keys, s1, [Send (Error ''Invalid RTMP key in URL''), Close])
                         else if the (rtmpKey s1) \<in> keys then
                           Inr (keys, s1, [Send (Error ''RTMP key already in use''), Close])
                         else
                           Inr (insert (the (rtmpKey s1)) keys,
                                s1\<lparr>ws_rtmpUrl := Some url, started := True\<rparr>,
                                [Send (Ok ''waiting for WebM header'')]))
                 | _ \<Rightarrow> Inl TypeError)))"

text \<open>Lines 108 to 164, the branch \<^verbatim>\<open>!headerReceived\<close>.\<close>

definition header_message :: "string set \<Rightarrow> session \<Rightarrow> buffer \<Rightarrow> bool \<Rightarrow> outcome" where
  "header_message keys s msg isBinary =
     (if \<not> isBinary then Inr (keys, s, [])
      else
        (let buf = initialBuffer s @ [msg];
             data = concat buf
         in if sniff data then
              Inr (keys,
                   s\<lparr>initialBuffer := [], headerReceived := True,
                     ffmpeg := Some (ChildProcess (ws_rtmpUrl s)), ffmpegError := False\<rparr>,
                   [Spawn ffArgs (ws_rtmpUrl s), StdinWrite data, Send (Ok ''ffmpeg started'')])
            else Inr (keys, s\<lparr>initialBuffer := buf\<rparr>, [])))"

text \<open>Lines 166 to 183, the streaming phase.\<close>

definition stream_message :: "string set \<Rightarrow> session \<Rightarrow> int \<Rightarrow> buffer \<Rightarrow> bool \<Rightarrow> stdin \<Rightarrow> outcome" where
  "stream_message keys s now msg isBinary st =
     (if ffmpegError s then Inr (keys, s, [])
      else if \<not> isBinary then Inr (keys, s, [])
      else
        (let s1 = s\<lparr>lastChunkAt := now\<rparr>
         in if ffmpeg s1 \<noteq> None \<and> st \<noteq> Unwritable then
              (case st of
                 Throws m \<Rightarrow>
                   Inr (keys, s1\<lparr>ffmpegError := True\<rparr>,
                        [StdinWrite msg, Send (ErrorMessage ''FFmpeg stdin write error'' m), Close])
               | _ \<Rightarrow> Inr (keys, s1, [StdinWrite msg]))
            else Inr (keys, s1, [])))"

definition on_message ::
  "runtime \<Rightarrow> string set \<Rightarrow> session \<Rightarrow> int \<Rightarrow> buffer \<Rightarrow> bool \<Rightarrow> stdin \<Rightarrow> outcome" where
  "on_message rt keys s now msg isBinary st =
     (if \<not> started s then init_message rt keys s msg isBinary
      else if \<not> headerReceived s then header_message keys s msg isBinary
      else stream_message keys s now msg isBinary st)"

subsection \<open>The other callbacks\<close>

text \<open>The interval callback, lines 57 to 64.\<close>

definition idle_tick :: "session \<Rightarrow> int \<Rightarrow> session \<times> effect list" where
  "idle_tick s now =
     (if ffmpeg s \<noteq> None \<and> now - lastChunkAt s > IDLE_TIMEOUT_MS then
        (s\<lparr>ffmpeg := None\<rparr>, [StdinEnd, Kill ''SIGINT''])
      else (s, []))"

text \<open>The child's \<^verbatim>\<open>close\<close> listener, lines 141 to 147.\<close>

definition ffmpeg_close :: "session \<Rightarrow> int option \<Rightarrow> string option \<Rightarrow> session \<times> effect list" where
  "ffmpeg_close s code signal =
     (s\<lparr>ffmpegError := True, ffmpeg := None\<rparr>,
      [Send (ErrorExit ''FFmpeg exited'' code signal), Close])"

text \<open>The \<^verbatim>\<open>error\<close> listener of the child's input stream, lines 148 to 153.\<close>

definition stdin_error :: "session \<Rightarrow> string \<Rightarrow> session \<times> effect list" where
  "stdin_error s m =
     (s\<lparr>ffmpegError := True\<rparr>, [Send (ErrorMessage ''FFmpeg stdin error'' m), Close])"

text \<open>The socket's \<^verbatim>\<open>close\<close> listener, lines 186 to 199.\<close>

definition ws_close :: "string set \<Rightarrow> session \<Rightarrow> string set \<times> session \<times> effect list" where
  "ws_close keys s =
     (let stop = (if ffmpeg s \<noteq> None then [StdinEnd, Kill ''SIGINT''] else []);
          s1 = (if ffmpeg s \<noteq> None then s\<lparr>ffmpeg := None\<rparr> else s);
          keys1 = (if \<not> falsy_key (rtmpKey s1) \<and> the (rtmpKey s1) \<in> keys
                   then keys - {the (rtmpKey s1)} else keys)
      in (keys1, s1\<lparr>idleInterval := False\<rparr>, stop @ [ClearInterval]))"

subsection \<open>The server: one registry, many connections\<close>

datatype event =
    Connection int
  | Message int buffer bool stdin
  | Tick int
  | FfmpegClose "int option" "string option"
  | StdinError string
  | WsClose
  | WsError

record server =
  activeKeys :: "string set"
  conns :: "nat \<Rightarrow> session option"

definition server0 :: server where
  "server0 = \<lparr> activeKeys = {}, conns = (\<lambda>c. None) \<rparr>"

definition tag :: "nat \<Rightarrow> effect list \<Rightarrow> (nat \<times> effect) list" where
  "tag c out = map (\<lambda>e. (c, e)) out"

text \<open>
  One event delivered to an existing connection. A callback runs only while it is
  registered: the interval until \<^verbatim>\<open>clearInterval\<close>, the two listeners of the
  child once it has been spawned. The \<^verbatim>\<open>error\<close> listener of the socket
  (lines 201 to 203) only logs.
\<close>

definition session_step :: "runtime \<Rightarrow> string set \<Rightarrow> session \<Rightarrow> event \<Rightarrow> outcome" where
  "session_step rt keys s ev =
     (case ev of
        Connection now \<Rightarrow> Inr (keys, s, [])
      | Message now msg isBinary st \<Rightarrow> on_message rt keys s now msg isBinary st
      | Tick now \<Rightarrow>
          (if idleInterval s then
             (case idle_tick s now of (s', out) \<Rightarrow> Inr (keys, s', out))
           else Inr (keys, s, []))
      | FfmpegClose code signal \<Rightarrow>
          (if headerReceived s then
             (case ffmpeg_close s code signal of (s', out) \<Rightarrow> Inr (keys, s', out))
           else Inr (keys, s, []))
      | StdinError m \<Rightarrow>
          (if headerReceived s then
             (case stdin_error s m of (s', out) \<Rightarrow> Inr (keys, s', out))
           else Inr (keys, s, []))
      | WsClose \<Rightarrow> Inr (ws_close keys s)
      | WsError \<Rightarrow> Inr (keys, s, []))"

text \<open>
  One event of connection \<open>fst ce\<close> on the server: a new connection gets fresh
  closure variables, any other event goes to the callbacks of its connection, which
  share \<^verbatim>\<open>activeKeys\<close>.
\<close>

definition server_step ::
  "runtime \<Rightarrow> server \<Rightarrow> nat \<times> event \<Rightarrow> exn + (server \<times> (nat \<times> effect) list)" where
  "server_step rt S ce =
     (case conns S (fst ce) of
        None \<Rightarrow>
          (case snd ce of
             Connection now \<Rightarrow> Inr (S\<lparr>conns := (conns S)(fst ce \<mapsto> new_session now)\<rparr>, [])
           | _ \<Rightarrow> Inr (S, []))
      | Some s \<Rightarrow>
          (case session_step rt (activeKeys S) s (snd ce) of
             Inl x \<Rightarrow> Inl x
           | Inr (keys, s', out) \<Rightarrow>
               Inr (S\<lparr>activeKeys := keys, conns := (conns S)(fst ce \<mapsto> s')\<rparr>, tag (fst ce) out)))"

text \<open>
  A trace of events. An exception that escapes a callback ends the process: the
  run stops there and reports it.
\<close>

fun run ::
  "runtime \<Rightarrow> server \<Rightarrow> (nat \<times> event) list \<Rightarrow> server \<times> (nat \<times> effect) list \<times> exn option" where
  "run rt S [] = (S, [], None)"
| "run rt S (e # es) =
     (case server_step rt S e of
        Inl x \<Rightarrow> (S, [], Some x)
      | Inr (S', out) \<Rightarrow>
          (case run rt S' es of (S'', outs, r) \<Rightarrow> (S'', out @ outs, r)))"

subsection \<open>Vocabulary of the properties\<close>

fun is_Spawn :: "effect \<Rightarrow> bool" where
  "is_Spawn (Spawn args url) = True"
| "is_Spawn e = False"

fun is_StdinWrite :: "effect \<Rightarrow> bool" where
  "is_StdinWrite (StdinWrite b) = True"
| "is_StdinWrite e = False"


text \<open>The effects of connection \<open>c\<close> in the output of a run.\<close>

definition effects_of :: "nat \<Rightarrow> (nat \<times> effect) list \<Rightarrow> effect list" where
  "effects_of c out = map snd (filter (\<lambda>ce. fst ce = c) out)"

text \<open>Interval callbacks of connection \<open>c\<close> at the times \<open>ts\<close>.\<close>

definition ticks :: "nat \<Rightarrow> int list \<Rightarrow> (nat \<times> event) list" where
  "ticks c ts = map (\<lambda>t. (c, Tick t)) ts"

text \<open>
  What holds of the closure variables of every connection: no child before the
  header has been seen, no buffered chunk after it.
\<close>

definition session_inv :: "session \<Rightarrow> bool" where
  "session_inv s \<longleftrightarrow>
     (if headerReceived s then initialBuffer s = [] else ffmpeg s = None)"

text \<open>
  The event is a binary message that completes the header for a session waiting
  for it, and the bytes then handed to the child.
\<close>

definition validates :: "session \<Rightarrow> event \<Rightarrow> bool" where
  "validates s ev \<longleftrightarrow>
     (case ev of
        Message now msg isBinary st \<Rightarrow>
          started s \<and> isBinary \<and> sniff (concat (initialBuffer s @ [msg]))
      | _ \<Rightarrow> False)"

definition flushed :: "session \<Rightarrow> event \<Rightarrow> buffer" where
  "flushed s ev =
     (case ev of
        Message now msg isBinary st \<Rightarrow> concat (initialBuffer s @ [msg])
      | _ \<Rightarrow> [])"

text \<open>
  The final segment of a URL, the text after its last slash: the key as the
  comment of line 83 describes it, for comparison with \<open>match_live2\<close>.
\<close>

definition final_segment :: "string \<Rightarrow> string" where
  "final_segment url = rev (takeWhile (\<lambda>c. c \<noteq> CHR ''/'') (rev url))"

subsection \<open>A runtime for the examples\<close>

text \<open>
  The examples run on messages of the form \<^verbatim>\<open>{"rtmpUrl":"..."}\<close> in printable
  ASCII without quotes or backslashes. On such a text \<open>ascii_toString\<close> is what
  \<^verbatim>\<open>Buffer.prototype.toString()\<close> returns and \<open>demo_parse\<close> is what
  \<^verbatim>\<open>JSON.parse\<close> returns; every other text is rejected by \<open>demo_parse\<close>,
  and the examples use none.
\<close>

definition bytes_of :: "string \<Rightarrow> buffer" where
  "bytes_of s = map (\<lambda>c. of_nat (of_char c)) s"

definition ascii_toString :: "buffer \<Rightarrow> string" where
  "ascii_toString b = map (\<lambda>x. char_of (unat x)) b"

definition init_text :: "string \<Rightarrow> string" where
  "init_text url =
     ''{'' @ [CHR 0x22] @ ''rtmpUrl'' @ [CHR 0x22] @ '':'' @ [CHR 0x22] @ url @ [CHR 0x22] @ ''}''"

definition plain :: "string \<Rightarrow> bool" where
  "plain body \<longleftrightarrow>
     list_all (\<lambda>c. c \<noteq> CHR 0x22 \<and> c \<noteq> CHR 0x5C \<and> 32 \<le> (of_char c :: nat)
                 \<and> (of_char c :: nat) < 127) body"

definition demo_parse :: "string \<Rightarrow> json option" where
  "demo_parse t =
     (let body = take (length t - 14) (drop 12 t) in
      if t = init_text body \<and> plain body
      then Some (JObject [(''rtmpUrl'', JString body)]) else None)"

definition demo :: runtime where
  "demo = \<lparr> toString = ascii_toString, parse_text = demo_parse \<rparr>"

definition init_msg :: "string \<Rightarrow> event" where
  "init_msg url = Message 0 (bytes_of (init_text url)) False Unwritable"

definition url_abc :: string where
  "url_abc = ''rtmp://a.rtmp.youtube.com/live2/abc''"

definition url_nested :: string where
  "url_nested = ''rtmp://a.rtmp.youtube.com/live2/abc/def''"

text \<open>
  Connection 0 after its init and the two bytes 1A 45, and after its init and a
  complete header.
\<close>

definition validating_trace :: "(nat \<times> event) list" where
  "validating_trace =
     [(0, Connection 0), (0, init_msg url_abc), (0, Message 1 [0x1A, 0x45] True Unwritable)]"

definition validating_session :: session where
  "validating_session =
     \<lparr> ffmpeg = None, started = True, lastChunkAt = 0, ffmpegError = False,
       initialBuffer = [[0x1A, 0x45]], headerReceived = False, rtmpKey = Some ''abc'',
       ws_rtmpUrl = Some url_abc, idleInterval = True \<rparr>"

definition streaming_trace :: "(nat \<times> event) list" where
  "streaming_trace =
     [(0, Connection 0), (0, init_msg url_abc),
      (0, Message 1 [0x1A, 0x45, 0xDF, 0xA3, 0x42] True Unwritable)]"

definition streaming_session :: session where
  "streaming_session =
     \<lparr> ffmpeg = Some (ChildProcess (Some url_abc)), started = True, lastChunkAt = 0,
       ffmpegError = False, initialBuffer = [], headerReceived = True,
       rtmpKey = Some ''abc'', ws_rtmpUrl = Some url_abc, idleInterval = True \<rparr>"

section \<open>Lemmas\<close>

subsection \<open>The runtime of the examples\<close>

lemma ascii_toString_bytes_of: "ascii_toString (bytes_of s) = s"
  unfolding ascii_toString_def bytes_of_def
  by (induction s) (simp_all add: unat_of_nat)

lemma demo_parse_init_text:
  "plain url \<Longrightarrow> demo_parse (init_text url) = Some (JObject [(''rtmpUrl'', JString url)])"
  by (simp add: demo_parse_def init_text_def)

lemma demo_JSON_parse:
  "plain url \<Longrightarrow>
   JSON_parse demo (if b then Str (toString demo (bytes_of (init_text url)))
                    else Buf (bytes_of (init_text url)))
     = Some (JObject [(''rtmpUrl'', JString url)])"
  by (simp add: JSON_parse_def ToString_def demo_def ascii_toString_bytes_of demo_parse_init_text)

lemma plain_url_abc: "plain url_abc"
  by (simp add: plain_def url_abc_def)

lemma match_url_abc: "match_live2 url_abc = Some ''abc''"
  by (simp add: url_abc_def match_here_def line_terminator_def)

lemma plain_url_nested: "plain url_nested"
  by (simp add: plain_def url_nested_def)

lemma match_url_nested: "match_live2 url_nested = Some ''abc/def''"
  by (simp add: url_nested_def match_here_def line_terminator_def)

lemma match_here_nonempty: "match_here u = Some k \<Longrightarrow> k \<noteq> []"
  by (auto simp: match_here_def Let_def split: if_splits)

lemma match_live2_nonempty: "match_live2 u = Some k \<Longrightarrow> k \<noteq> [] \<and> u \<noteq> []"
  by (induction u) (auto split: option.splits dest: match_here_nonempty)

lemma init_message_url:
  assumes "JSON_parse rt (if isBinary then Str (toString rt msg) else Buf msg) = Some init"
    and "get_prop init ''rtmpUrl'' = Some (JString url)"
    and "match_live2 url = Some k"
  shows "init_message rt keys s msg isBinary =
     (if k \<in> keys then
        Inr (keys, s\<lparr>rtmpKey := Some k\<rparr>, [Send (Error ''RTMP key already in use''), Close])
      else
        Inr (insert k keys, s\<lparr>rtmpKey := Some k, ws_rtmpUrl := Some url, started := True\<rparr>,
             [Send (Ok ''waiting for WebM header'')]))"
proof -
  from assms(3) have ne: "k \<noteq> []" "url \<noteq> []"
    using match_live2_nonempty by blast+
  from assms(2) have obj: "truthy init"
    by (cases init) simp_all
  show ?thesis
    unfolding init_message_def
    using assms ne obj by (simp add: Let_def falsy_key_def)
qed

lemma init_message_shape:
  assumes "init_message rt keys s msg isBinary = Inr (keys', s', out)"
  shows "headerReceived s' = headerReceived s \<and> initialBuffer s' = initialBuffer s
       \<and> ffmpeg s' = ffmpeg s \<and> ffmpegError s' = ffmpegError s
       \<and> lastChunkAt s' = lastChunkAt s \<and> idleInterval s' = idleInterval s
       \<and> (\<forall>e \<in> set out. \<not> is_Spawn e \<and> \<not> is_StdinWrite e)"
  using assms unfolding init_message_def
  by (auto simp: Let_def split: option.splits if_splits json.splits)

lemma header_message_shape:
  assumes "header_message keys s msg isBinary = Inr (keys', s', out)"
  shows "keys' = keys \<and>
       (if isBinary \<and> sniff (concat (initialBuffer s @ [msg]))
        then headerReceived s' \<and> initialBuffer s' = []
           \<and> out = [Spawn ffArgs (ws_rtmpUrl s), StdinWrite (concat (initialBuffer s @ [msg])),
                    Send (Ok ''ffmpeg started'')]
        else headerReceived s' = headerReceived s \<and> ffmpeg s' = ffmpeg s \<and> out = []
           \<and> ffmpegError s' = ffmpegError s)"
  using assms unfolding header_message_def
  by (auto simp: Let_def split: if_splits)

lemma stream_message_shape:
  assumes "stream_message keys s now msg isBinary st = Inr (keys', s', out)"
  shows "keys' = keys \<and> headerReceived s' = headerReceived s
       \<and> initialBuffer s' = initialBuffer s \<and> (ffmpegError s \<longrightarrow> ffmpegError s' \<and> out = [])
       \<and> (\<forall>e \<in> set out. \<not> is_Spawn e) \<and> ffmpeg s' = ffmpeg s"
  using assms unfolding stream_message_def
  by (auto simp: Let_def split: if_splits stdin.splits)


lemma session_step_validating:
  assumes "session_step rt keys s ev = Inr (keys', s', out)" and "\<not> headerReceived s"
  shows "if validates s ev
         then headerReceived s' \<and> initialBuffer s' = []
            \<and> out = [Spawn ffArgs (ws_rtmpUrl s), StdinWrite (flushed s ev),
                     Send (Ok ''ffmpeg started'')]
         else \<not> headerReceived s' \<and> (\<forall>e \<in> set out. \<not> is_Spawn e \<and> \<not> is_StdinWrite e)"
proof (cases ev)
  case (Message now msg isBinary st)
  show ?thesis
  proof (cases "started s")
    case True
    with assms Message have "header_message keys s msg isBinary = Inr (keys', s', out)"
      by (simp add: session_step_def on_message_def)
    from header_message_shape [OF this] assms(2) True Message show ?thesis
      by (auto simp: validates_def flushed_def split: if_splits)
  next
    case False
    with assms Message have "init_message rt keys s msg isBinary = Inr (keys', s', out)"
      by (simp add: session_step_def on_message_def)
    from init_message_shape [OF this] assms(2) False Message show ?thesis
      by (simp add: validates_def)
  qed
qed (use assms in \<open>auto simp: session_step_def validates_def idle_tick_def ws_close_def Let_def
       split: if_splits\<close>)

lemma session_step_header_mono:
  assumes "session_step rt keys s ev = Inr (keys', s', out)" and "headerReceived s"
  shows "headerReceived s'"
proof (cases ev)
  case (Message now msg isBinary st)
  show ?thesis
  proof (cases "started s")
    case True
    with assms Message have "stream_message keys s now msg isBinary st = Inr (keys', s', out)"
      by (simp add: session_step_def on_message_def)
    from stream_message_shape [OF this] assms(2) show ?thesis by simp
  next
    case False
    with assms Message have "init_message rt keys s msg isBinary = Inr (keys', s', out)"
      by (simp add: session_step_def on_message_def)
    from init_message_shape [OF this] assms(2) show ?thesis by simp
  qed
qed (use assms in \<open>auto simp: session_step_def idle_tick_def ws_close_def Let_def
       ffmpeg_close_def stdin_error_def split: if_splits\<close>)

lemma session_step_inv:
  assumes "session_step rt keys s ev = Inr (keys', s', out)" and "session_inv s"
  shows "session_inv s'"
proof (cases ev)
  case (Message now msg isBinary st)
  show ?thesis
  proof (cases "started s")
    case False
    with assms Message have "init_message rt keys s msg isBinary = Inr (keys', s', out)"
      by (simp add: session_step_def on_message_def)
    from init_message_shape [OF this] assms(2) show ?thesis
      by (simp add: session_inv_def)
  next
    case True
    show ?thesis
    proof (cases "headerReceived s")
      case False
      with assms Message True have "header_message keys s msg isBinary = Inr (keys', s', out)"
        by (simp add: session_step_def on_message_def)
      from header_message_shape [OF this] assms(2) False show ?thesis
        by (auto simp: session_inv_def split: if_splits)
    next
      case hr: True
      with assms Message True
      have "stream_message keys s now msg isBinary st = Inr (keys', s', out)"
        by (simp add: session_step_def on_message_def)
      from stream_message_shape [OF this] assms(2) hr show ?thesis
        by (simp add: session_inv_def)
    qed
  qed
qed (use assms in \<open>auto simp: session_step_def idle_tick_def ws_close_def Let_def session_inv_def
       ffmpeg_close_def stdin_error_def split: if_splits\<close>)

lemma session_step_failed:
  assumes "session_step rt keys s ev = Inr (keys', s', out)"
    and "headerReceived s" and "ffmpegError s"
  shows "headerReceived s' \<and> ffmpegError s' \<and> (\<forall>e \<in> set out. \<not> is_StdinWrite e)"
proof (cases ev)
  case (Message now msg isBinary st)
  show ?thesis
  proof (cases "started s")
    case True
    with assms Message have "stream_message keys s now msg isBinary st = Inr (keys', s', out)"
      by (simp add: session_step_def on_message_def)
    from stream_message_shape [OF this] assms(2,3) show ?thesis by simp
  next
    case False
    with assms Message have "init_message rt keys s msg isBinary = Inr (keys', s', out)"
      by (simp add: session_step_def on_message_def)
    from init_message_shape [OF this] assms(2,3) show ?thesis by simp
  qed
qed (use assms in \<open>auto simp: session_step_def idle_tick_def ws_close_def Let_def
       ffmpeg_close_def stdin_error_def split: if_splits\<close>)

lemma server_step_other:
  assumes "server_step rt S (c', ev) = Inr (S', out)" and "c' \<noteq> c"
  shows "conns S' c = conns S c \<and> (\<forall>e. (c, e) \<notin> set out)"
  using assms unfolding server_step_def tag_def
  by (auto split: option.splits event.splits sum.splits)

lemma server_step_absent:
  assumes "server_step rt S (c, ev) = Inr (S', out)" and "conns S c = None"
  shows "out = [] \<and> (conns S' c = None \<or> (\<exists>now. conns S' c = Some (new_session now)))"
  using assms unfolding server_step_def
  by (auto split: event.splits)

lemma server_step_present:
  assumes "server_step rt S (c, ev) = Inr (S', out)" and "conns S c = Some s"
  shows "\<exists>keys' s' o'. session_step rt (activeKeys S) s ev = Inr (keys', s', o')
           \<and> S' = S\<lparr>activeKeys := keys', conns := (conns S)(c \<mapsto> s')\<rparr> \<and> out = tag c o'"
  using assms unfolding server_step_def
  by (auto split: sum.splits)


lemma run_Cons_Inr:
  assumes "run rt S (e # es) = (S', out, r)" and "server_step rt S e = Inr (S1, o1)"
  shows "\<exists>outs. run rt S1 es = (S', outs, r) \<and> out = o1 @ outs"
  using assms by (auto split: prod.splits)

lemma run_Cons_Inl:
  assumes "run rt S (e # es) = (S', out, r)" and "server_step rt S e = Inl x"
  shows "S' = S \<and> out = [] \<and> r = Some x"
  using assms by auto

lemma server_step_header_mono:
  assumes "server_step rt S (c', ev) = Inr (S', out)"
    and "conns S c = Some s" and "headerReceived s"
  shows "\<exists>s'. conns S' c = Some s' \<and> headerReceived s'"
proof (cases "c' = c")
  case False
  with server_step_other [OF assms(1)] assms(2,3) show ?thesis by auto
next
  case True
  with server_step_present [of rt S c ev S' out s] assms
  obtain keys' s' o' where "session_step rt (activeKeys S) s ev = Inr (keys', s', o')"
    and "S' = S\<lparr>activeKeys := keys', conns := (conns S)(c \<mapsto> s')\<rparr>"
    by auto
  with session_step_header_mono [OF this(1) assms(3)] show ?thesis by simp
qed

lemma run_header_mono:
  assumes "run rt S es = (S', out, r)" and "conns S c = Some s" and "headerReceived s"
  shows "\<exists>s'. conns S' c = Some s' \<and> headerReceived s'"
  using assms
proof (induction es arbitrary: S out s)
  case Nil
  then show ?case by auto
next
  case (Cons e es)
  obtain c' ev where e: "e = (c', ev)" by (cases e)
  show ?case
  proof (cases "server_step rt S e")
    case (Inl x)
    from run_Cons_Inl [OF Cons.prems(1) Inl] Cons.prems(2,3) show ?thesis by auto
  next
    case (Inr p)
    obtain S1 o1 where p: "p = (S1, o1)" by (cases p)
    from run_Cons_Inr [OF Cons.prems(1) Inr [unfolded p]]
    obtain outs where rest: "run rt S1 es = (S', outs, r)" by auto
    from server_step_header_mono [OF Inr [unfolded p e] Cons.prems(2,3)]
    obtain s1 where "conns S1 c = Some s1" "headerReceived s1" by auto
    from Cons.IH [OF rest this] show ?thesis .
  qed
qed

lemma server_step_quiet:
  assumes "server_step rt S (c', ev) = Inr (S', out)"
    and "conns S' c = Some s'" and "\<not> headerReceived s'"
  shows "\<forall>e. (c, e) \<in> set out \<longrightarrow> \<not> is_Spawn e \<and> \<not> is_StdinWrite e"
proof (cases "c' = c")
  case False
  with server_step_other [OF assms(1)] show ?thesis by auto
next
  case True
  show ?thesis
  proof (cases "conns S c")
    case None
    with server_step_absent [of rt S c ev S' out] assms(1) True show ?thesis by auto
  next
    case (Some s)
    with server_step_present [of rt S c ev S' out s] assms(1) True
    obtain keys1 s1 o1 where st: "session_step rt (activeKeys S) s ev = Inr (keys1, s1, o1)"
      and S': "S' = S\<lparr>activeKeys := keys1, conns := (conns S)(c \<mapsto> s1)\<rparr>"
      and out: "out = tag c o1"
      by auto
    from S' assms(2) have s1: "s1 = s'" by simp
    have nh: "\<not> headerReceived s"
      using session_step_header_mono [OF st] s1 assms(3) by auto
    from session_step_validating [OF st nh] s1 assms(3)
    have "\<forall>e \<in> set o1. \<not> is_Spawn e \<and> \<not> is_StdinWrite e"
      by (auto split: if_splits)
    with out show ?thesis by (auto simp: tag_def)
  qed
qed

lemma server_step_keeps_conn:
  assumes "server_step rt S (c', ev) = Inr (S', out)" and "conns S c = Some s"
  shows "\<exists>s'. conns S' c = Some s'"
proof (cases "c' = c")
  case False
  with server_step_other [OF assms(1)] assms(2) show ?thesis by auto
next
  case True
  with server_step_present [of rt S c ev S' out s] assms show ?thesis by auto
qed

lemma run_quiet:
  assumes "run rt S es = (S', out, r)" and "conns S' c = Some s'" and "\<not> headerReceived s'"
  shows "\<forall>e. (c, e) \<in> set out \<longrightarrow> \<not> is_Spawn e \<and> \<not> is_StdinWrite e"
  using assms
proof (induction es arbitrary: S out)
  case Nil
  then show ?case by auto
next
  case (Cons e es)
  obtain c' ev where e: "e = (c', ev)" by (cases e)
  show ?case
  proof (cases "server_step rt S e")
    case (Inl x)
    from run_Cons_Inl [OF Cons.prems(1) Inl] show ?thesis by auto
  next
    case (Inr p)
    obtain S1 o1 where p: "p = (S1, o1)" by (cases p)
    from run_Cons_Inr [OF Cons.prems(1) Inr [unfolded p]]
    obtain outs where rest: "run rt S1 es = (S', outs, r)" and out: "out = o1 @ outs" by auto
    from Cons.IH [OF rest Cons.prems(2,3)]
    have tail: "\<forall>e. (c, e) \<in> set outs \<longrightarrow> \<not> is_Spawn e \<and> \<not> is_StdinWrite e" .
    have head: "\<forall>e. (c, e) \<in> set o1 \<longrightarrow> \<not> is_Spawn e \<and> \<not> is_StdinWrite e"
    proof (cases "conns S1 c")
      case None
      have "conns S c = None"
      proof (rule ccontr)
        assume "conns S c \<noteq> None"
        then obtain s where "conns S c = Some s" by auto
        from server_step_keeps_conn [OF Inr [unfolded p e] this] None show False by auto
      qed
      show ?thesis
      proof (cases "c' = c")
        case True
        with server_step_absent [of rt S c ev S1 o1] Inr p e \<open>conns S c = None\<close>
        show ?thesis by auto
      next
        case False
        with server_step_other [OF Inr [unfolded p e]] show ?thesis by auto
      qed
    next
      case (Some s1)
      have "\<not> headerReceived s1"
      proof
        assume "headerReceived s1"
        from run_header_mono [OF rest Some this] Cons.prems(2,3) show False by auto
      qed
      from server_step_quiet [OF Inr [unfolded p e] Some this] show ?thesis .
    qed
    from head tail out show ?thesis by auto
  qed
qed

lemma server_step_inv:
  assumes "server_step rt S (c', ev) = Inr (S', out)"
    and "\<forall>c s. conns S c = Some s \<longrightarrow> session_inv s"
  shows "\<forall>c s. conns S' c = Some s \<longrightarrow> session_inv s"
proof (intro allI impI)
  fix c s' assume c: "conns S' c = Some s'"
  show "session_inv s'"
  proof (cases "c' = c")
    case False
    with server_step_other [OF assms(1)] c assms(2) show ?thesis by auto
  next
    case True
    show ?thesis
    proof (cases "conns S c")
      case None
      with server_step_absent [of rt S c ev S' out] assms(1) True c
      show ?thesis by (auto simp: new_session_def session_inv_def)
    next
      case (Some s)
      with server_step_present [of rt S c ev S' out s] assms(1) True
      obtain keys1 s1 o1 where st: "session_step rt (activeKeys S) s ev = Inr (keys1, s1, o1)"
        and S': "S' = S\<lparr>activeKeys := keys1, conns := (conns S)(c \<mapsto> s1)\<rparr>"
        by auto
      from S' c have "s1 = s'" by simp
      with session_step_inv [OF st] assms(2) Some show ?thesis by auto
    qed
  qed
qed

lemma run_inv:
  assumes "run rt S es = (S', out, r)"
    and "\<forall>c s. conns S c = Some s \<longrightarrow> session_inv s"
  shows "\<forall>c s. conns S' c = Some s \<longrightarrow> session_inv s"
  using assms
proof (induction es arbitrary: S out)
  case Nil
  then show ?case by auto
next
  case (Cons e es)
  obtain c' ev where e: "e = (c', ev)" by (cases e)
  show ?case
  proof (cases "server_step rt S e")
    case (Inl x)
    from run_Cons_Inl [OF Cons.prems(1) Inl] Cons.prems(2) show ?thesis by auto
  next
    case (Inr p)
    obtain S1 o1 where p: "p = (S1, o1)" by (cases p)
    from run_Cons_Inr [OF Cons.prems(1) Inr [unfolded p]]
    obtain outs where rest: "run rt S1 es = (S', outs, r)" by auto
    from server_step_inv [OF Inr [unfolded p e] Cons.prems(2)]
    have "\<forall>c s. conns S1 c = Some s \<longrightarrow> session_inv s" .
    from Cons.IH [OF rest this] show ?thesis .
  qed
qed

lemma reachable_inv:
  assumes "run rt server0 es = (S, out, r)" and "conns S c = Some s"
  shows "session_inv s"
  using run_inv [OF assms(1)] assms(2) by (simp add: server0_def)

lemma init_message_abc:
  "init_message demo keys s (bytes_of (init_text url_abc)) isBinary =
     (if ''abc'' \<in> keys then
        Inr (keys, s\<lparr>rtmpKey := Some ''abc''\<rparr>, [Send (Error ''RTMP key already in use''), Close])
      else
        Inr (insert ''abc'' keys,
             s\<lparr>rtmpKey := Some ''abc'', ws_rtmpUrl := Some url_abc, started := True\<rparr>,
             [Send (Ok ''waiting for WebM header'')]))"
  by (rule init_message_url [OF demo_JSON_parse [OF plain_url_abc] _ match_url_abc]) simp

lemma init_message_nested:
  "init_message demo {} s (bytes_of (init_text url_nested)) isBinary =
     Inr ({''abc/def''},
          s\<lparr>rtmpKey := Some ''abc/def'', ws_rtmpUrl := Some url_nested, started := True\<rparr>,
          [Send (Ok ''waiting for WebM header'')])"
  using init_message_url [OF demo_JSON_parse [OF plain_url_nested] _ match_url_nested, of "{}" s]
  by simp

lemmas handler_defs =
  server_step_def session_step_def on_message_def header_message_def stream_message_def
  idle_tick_def ffmpeg_close_def stdin_error_def ws_close_def tag_def

lemmas step_defs =
  handler_defs new_session_def init_msg_def server0_def falsy_key_def sniff_def
  IDLE_TIMEOUT_MS_def

subsection \<open>Runs\<close>


lemma server_step_tick_idle:
  assumes "conns S c = Some s" and "ffmpeg s = None"
  shows "server_step rt S (c, Tick t) = Inr (S, [])"
  using assms by (simp add: handler_defs map_upd_triv)

lemma run_ticks_idle:
  assumes "conns S c = Some s" and "ffmpeg s = None"
  shows "run rt S (ticks c ts) = (S, [], None)"
  by (induction ts) (simp_all add: ticks_def server_step_tick_idle [OF assms])


lemma server_step_failed:
  assumes "server_step rt S (c', ev) = Inr (S', out)"
    and "conns S c = Some s" and "headerReceived s" and "ffmpegError s"
  shows "(\<exists>s'. conns S' c = Some s' \<and> headerReceived s' \<and> ffmpegError s')
       \<and> (\<forall>e. (c, e) \<in> set out \<longrightarrow> \<not> is_StdinWrite e)"
proof (cases "c' = c")
  case False
  with server_step_other [OF assms(1)] assms(2,3,4) show ?thesis by auto
next
  case True
  with server_step_present [of rt S c ev S' out s] assms(1,2)
  obtain keys1 s1 o1 where st: "session_step rt (activeKeys S) s ev = Inr (keys1, s1, o1)"
    and S': "S' = S\<lparr>activeKeys := keys1, conns := (conns S)(c \<mapsto> s1)\<rparr>"
    and out: "out = tag c o1"
    by auto
  from session_step_failed [OF st assms(3,4)] S' out show ?thesis
    by (auto simp: tag_def)
qed

lemma run_failed:
  assumes "run rt S es = (S', out, r)"
    and "conns S c = Some s" and "headerReceived s" and "ffmpegError s"
  shows "\<forall>e. (c, e) \<in> set out \<longrightarrow> \<not> is_StdinWrite e"
  using assms
proof (induction es arbitrary: S out s)
  case Nil
  then show ?case by auto
next
  case (Cons e es)
  obtain c' ev where e: "e = (c', ev)" by (cases e)
  show ?case
  proof (cases "server_step rt S e")
    case (Inl x)
    from run_Cons_Inl [OF Cons.prems(1) Inl] show ?thesis by auto
  next
    case (Inr p)
    obtain S1 o1 where p: "p = (S1, o1)" by (cases p)
    from run_Cons_Inr [OF Cons.prems(1) Inr [unfolded p]]
    obtain outs where rest: "run rt S1 es = (S', outs, r)" and out: "out = o1 @ outs" by auto
    from server_step_failed [OF Inr [unfolded p e] Cons.prems(2,3,4)]
    obtain s1 where s1: "conns S1 c = Some s1" "headerReceived s1" "ffmpegError s1"
      and head: "\<forall>e. (c, e) \<in> set o1 \<longrightarrow> \<not> is_StdinWrite e"
      by auto
    from Cons.IH [OF rest s1] head out show ?thesis by auto
  qed
qed




lemma run_projections:
  "run rt S es = (fst (run rt S es), fst (snd (run rt S es)), snd (snd (run rt S es)))"
  by simp

lemma validating_conn:
  "conns (fst (run demo server0 validating_trace)) 0 = Some validating_session"
  by (simp add: step_defs init_message_abc validating_trace_def validating_session_def)

lemma streaming_conn:
  "conns (fst (run demo server0 streaming_trace)) 0 = Some streaming_session"
  by (simp add: step_defs init_message_abc streaming_trace_def streaming_session_def)


section \<open>The claims\<close>

text \<open>
  C1. At most one session is claimed to hold a key at a time, and a session whose
  acquisition failed is claimed never to remove the key when it closes. The handler
  assigns \<^verbatim>\<open>rtmpKey\<close> (line 85) before the duplicate check (line 92), so the
  close listener of a rejected session finds the key in \<^verbatim>\<open>activeKeys\<close> and
  deletes it. Connection 0 acquires the key; connection 1 is rejected and closes,
  which empties the registry while connection 0 is still open; connection 2 then
  acquires the same key, and connections 0 and 2 hold it together.
\<close>

theorem C1_rejected_session_releases_holders_key:
  "activeKeys (fst (run demo server0
      [(0, Connection 0), (0, init_msg url_abc),
       (1, Connection 0), (1, init_msg url_abc), (1, WsClose)])) = {}
   \<and> snd (run demo server0
      [(0, Connection 0), (0, init_msg url_abc),
       (1, Connection 0), (1, init_msg url_abc), (1, WsClose),
       (2, Connection 0), (2, init_msg url_abc)])
     = ([(0, Send (Ok ''waiting for WebM header'')),
         (1, Send (Error ''RTMP key already in use'')), (1, Close), (1, ClearInterval),
         (2, Send (Ok ''waiting for WebM header''))], None)
   \<and> map_option (\<lambda>s. (started s, idleInterval s, rtmpKey s))
        (conns (fst (run demo server0
           [(0, Connection 0), (0, init_msg url_abc),
            (1, Connection 0), (1, init_msg url_abc), (1, WsClose),
            (2, Connection 0), (2, init_msg url_abc)])) 0)
     = Some (True, True, Some ''abc'')
   \<and> map_option (\<lambda>s. (started s, idleInterval s, rtmpKey s))
        (conns (fst (run demo server0
           [(0, Connection 0), (0, init_msg url_abc),
            (1, Connection 0), (1, init_msg url_abc), (1, WsClose),
            (2, Connection 0), (2, init_msg url_abc)])) 2)
     = Some (True, True, Some ''abc'')"
  by (simp add: step_defs init_message_abc)

text \<open>
  C2. The header check is claimed to accept a buffer exactly when it is at least as
  long as the four signature bytes 1A 45 DF A3 and starts with them, so the buffer
  that is exactly the signature should be accepted. The check of line 114 asks for
  a length above four: the exact signature is rejected, one more byte makes it
  pass, and a session that has received only the signature spawns nothing.
\<close>

theorem C2_exact_signature_rejected:
  "sniff [0x1A, 0x45, 0xDF, 0xA3] = False
   \<and> sniff [0x1A, 0x45, 0xDF, 0xA3, 0x00] = True
   \<and> snd (run demo server0
        [(0, Connection 0), (0, init_msg url_abc),
         (0, Message 1 [0x1A, 0x45, 0xDF, 0xA3] True Unwritable)])
       = ([(0, Send (Ok ''waiting for WebM header''))], None)"
  by (simp add: step_defs init_message_abc)

text \<open>
  C3, as claimed: after the init and a first binary chunk that does not match, a
  chunk beginning with the exact signature bytes causes the spawn and the success
  acknowledgment. The check of line 114 reads the head of the concatenation of all
  buffered chunks, so after the first chunk 00 the chunk 1A 45 DF A3 00 is only
  buffered: the run sends the init acknowledgment and nothing else.
\<close>

theorem C3_signature_after_other_bytes_counterexample:
  "sniff [0x00] = False
   \<and> take 4 [0x1A, 0x45, 0xDF, 0xA3, 0x00 :: byte] = [0x1A, 0x45, 0xDF, 0xA3]
   \<and> snd (run demo server0
        [(0, Connection 0), (0, init_msg url_abc),
         (0, Message 1 [0x00] True Unwritable),
         (0, Message 2 [0x1A, 0x45, 0xDF, 0xA3, 0x00] True Unwritable)])
       = ([(0, Send (Ok ''waiting for WebM header''))], None)"
  by (simp add: step_defs init_message_abc)

text \<open>
  C3, amended: after the init (acknowledged with ``waiting for WebM header'') and a
  first binary chunk on which the header check fails (buffered, nothing sent), a
  binary chunk causes the spawn for the destination URL, the write of the
  accumulated buffer (the first chunk followed by the new one) and the
  acknowledgment ``ffmpeg started'', whenever that accumulated buffer passes the
  header check of line 114; the buffer is then empty.
\<close>

theorem C3_header_completed_by_later_chunk:
  assumes "conns S c = Some s" and "\<not> started s" and "\<not> headerReceived s"
    and "initialBuffer s = []"
    and "JSON_parse rt (if b0 then Str (toString rt m0) else Buf m0) = Some init"
    and "get_prop init ''rtmpUrl'' = Some (JString url)"
    and "match_live2 url = Some k" and "k \<notin> activeKeys S"
    and "\<not> sniff c1" and "sniff (c1 @ c2)"
  shows "snd (run rt S [(c, Message t0 m0 b0 st0), (c, Message t1 c1 True st1),
                        (c, Message t2 c2 True st2)])
         = ([(c, Send (Ok ''waiting for WebM header'')),
             (c, Spawn ffArgs (Some url)), (c, StdinWrite (c1 @ c2)),
             (c, Send (Ok ''ffmpeg started''))], None)
       \<and> conns (fst (run rt S [(c, Message t0 m0 b0 st0), (c, Message t1 c1 True st1),
                        (c, Message t2 c2 True st2)])) c
         = Some (s\<lparr>rtmpKey := Some k, ws_rtmpUrl := Some url, started := True,
                   initialBuffer := [], headerReceived := True,
                   ffmpeg := Some (ChildProcess (Some url)), ffmpegError := False\<rparr>)"
  using assms
  by (simp add: handler_defs init_message_url [OF assms(5,6,7)])

text \<open>The header split over two chunks, 1A 45 and DF A3 42.\<close>

theorem C3_header_completed_by_later_chunk_witness:
  "sniff [0x1A, 0x45] = False \<and> sniff ([0x1A, 0x45] @ [0xDF, 0xA3, 0x42]) = True
   \<and> snd (run demo (server0\<lparr>conns := [0 \<mapsto> new_session 0]\<rparr>)
        [(0, init_msg url_abc), (0, Message 1 [0x1A, 0x45] True Unwritable),
         (0, Message 2 [0xDF, 0xA3, 0x42] True Unwritable)])
       = ([(0, Send (Ok ''waiting for WebM header'')),
           (0, Spawn ffArgs (Some url_abc)), (0, StdinWrite [0x1A, 0x45, 0xDF, 0xA3, 0x42]),
           (0, Send (Ok ''ffmpeg started''))], None)"
proof -
  have h1: "conns (server0\<lparr>conns := [0 \<mapsto> new_session 0]\<rparr>) 0 = Some (new_session 0)"
    by simp
  have h2: "\<not> started (new_session 0)" and h3: "\<not> headerReceived (new_session 0)"
    and h4: "initialBuffer (new_session 0) = []"
    by (simp_all add: new_session_def)
  have h5: "JSON_parse demo (if False then Str (toString demo (bytes_of (init_text url_abc)))
                             else Buf (bytes_of (init_text url_abc)))
              = Some (JObject [(''rtmpUrl'', JString url_abc)])"
    by (rule demo_JSON_parse [OF plain_url_abc])
  have h6: "get_prop (JObject [(''rtmpUrl'', JString url_abc)]) ''rtmpUrl'' = Some (JString url_abc)"
    by simp
  have h8: "''abc'' \<notin> activeKeys (server0\<lparr>conns := [0 \<mapsto> new_session 0]\<rparr>)"
    by (simp add: server0_def)
  have h9: "\<not> sniff [0x1A, 0x45]" and h10: "sniff ([0x1A, 0x45] @ [0xDF, 0xA3, 0x42])"
    by (simp_all add: sniff_def)
  from C3_header_completed_by_later_chunk [OF h1 h2 h3 h4 h5 h6 match_url_abc h8 h9 h10,
      of 0 Unwritable 1 Unwritable 2 Unwritable] h9 h10
  show ?thesis by (simp add: init_msg_def)
qed




text \<open>
  C5. On every trace from the start of the server, a connection whose header has
  not been validated has no child, and no spawn and no write to a child has been
  made for it; the step that validates is the only one that spawns and writes, it
  writes the whole accumulated buffer and empties it; once the header is validated
  the buffer stays empty.
\<close>

theorem C5_no_subprocess_before_validation:
  assumes "run rt server0 es = (S, out, r)" and "conns S c = Some s"
  shows "(\<not> headerReceived s \<longrightarrow>
            ffmpeg s = None
          \<and> (\<forall>e. (c, e) \<in> set out \<longrightarrow> \<not> is_Spawn e \<and> \<not> is_StdinWrite e)
          \<and> (\<forall>keys ev keys' s' o'. session_step rt keys s ev = Inr (keys', s', o') \<longrightarrow>
               (if validates s ev
                then headerReceived s' \<and> initialBuffer s' = []
                   \<and> o' = [Spawn ffArgs (ws_rtmpUrl s), StdinWrite (flushed s ev),
                           Send (Ok ''ffmpeg started'')]
                else \<not> headerReceived s'
                   \<and> (\<forall>e \<in> set o'. \<not> is_Spawn e \<and> \<not> is_StdinWrite e))))
       \<and> (headerReceived s \<longrightarrow> initialBuffer s = [])"
proof (intro conjI impI)
  have inv: "session_inv s"
    by (rule reachable_inv [OF assms])
  {
    assume "headerReceived s"
    with inv show "initialBuffer s = []"
      by (simp add: session_inv_def)
  }
  assume nh: "\<not> headerReceived s"
  with inv show "ffmpeg s = None"
    by (simp add: session_inv_def)
  show "\<forall>e. (c, e) \<in> set out \<longrightarrow> \<not> is_Spawn e \<and> \<not> is_StdinWrite e"
    by (rule run_quiet [OF assms nh])
  show "\<forall>keys ev keys' s' o'. session_step rt keys s ev = Inr (keys', s', o') \<longrightarrow>
               (if validates s ev
                then headerReceived s' \<and> initialBuffer s' = []
                   \<and> o' = [Spawn ffArgs (ws_rtmpUrl s), StdinWrite (flushed s ev),
                           Send (Ok ''ffmpeg started'')]
                else \<not> headerReceived s'
                   \<and> (\<forall>e \<in> set o'. \<not> is_Spawn e \<and> \<not> is_StdinWrite e))"
  proof (intro allI impI)
    fix keys ev keys' s' o'
    assume "session_step rt keys s ev = Inr (keys', s', o')"
    from session_step_validating [OF this nh]
    show "if validates s ev
          then headerReceived s' \<and> initialBuffer s' = []
             \<and> o' = [Spawn ffArgs (ws_rtmpUrl s), StdinWrite (flushed s ev),
                     Send (Ok ''ffmpeg started'')]
          else \<not> headerReceived s'
             \<and> (\<forall>e \<in> set o'. \<not> is_Spawn e \<and> \<not> is_StdinWrite e)" .
  qed
qed

text \<open>Connection 0 after its init and the chunk 1A 45.\<close>

theorem C5_no_subprocess_before_validation_witness:
  "conns (fst (run demo server0 validating_trace)) 0 = Some validating_session
   \<and> \<not> headerReceived validating_session
   \<and> ffmpeg validating_session = None
   \<and> filter is_Spawn (effects_of 0 (fst (snd (run demo server0 validating_trace)))) = []
   \<and> filter is_StdinWrite (effects_of 0 (fst (snd (run demo server0 validating_trace)))) = []"
proof -
  have h1: "run demo server0 validating_trace
            = (fst (run demo server0 validating_trace),
               fst (snd (run demo server0 validating_trace)),
               snd (snd (run demo server0 validating_trace)))"
    by simp
  have nh: "\<not> headerReceived validating_session"
    by (simp add: validating_session_def)
  from C5_no_subprocess_before_validation [OF h1 validating_conn] nh
  have "ffmpeg validating_session = None"
    and "\<forall>e. (0, e) \<in> set (fst (snd (run demo server0 validating_trace)))
           \<longrightarrow> \<not> is_Spawn e \<and> \<not> is_StdinWrite e"
    by blast+
  with nh validating_conn show ?thesis
    by (auto simp: effects_of_def filter_empty_conv)
qed

text \<open>
  C6. Of two sessions initialized with the same key, the second is claimed to be
  rejected with one notice and closed without ever being recorded as holding the
  key. The notice and the close call are as claimed and the registry is not added
  to, but line 85 has already stored the key in the rejected session's
  \<^verbatim>\<open>rtmpKey\<close>, the variable by which the close listener (line 194) takes a
  session to hold its key: when the rejected connection closes, the key of the
  accepted one is deleted while that one is still started.
\<close>

theorem C6_rejected_session_keeps_key:
  "snd (run demo server0
      [(0, Connection 0), (0, init_msg url_abc), (1, Connection 0), (1, init_msg url_abc)])
     = ([(0, Send (Ok ''waiting for WebM header'')),
         (1, Send (Error ''RTMP key already in use'')), (1, Close)], None)
   \<and> map_option (\<lambda>s. (started s, rtmpKey s))
        (conns (fst (run demo server0
           [(0, Connection 0), (0, init_msg url_abc),
            (1, Connection 0), (1, init_msg url_abc)])) 1)
     = Some (False, Some ''abc'')
   \<and> activeKeys (fst (run demo server0
        [(0, Connection 0), (0, init_msg url_abc), (1, Connection 0), (1, init_msg url_abc)]))
     = {''abc''}
   \<and> ws_close {''abc''} ((new_session 0)\<lparr>rtmpKey := Some ''abc''\<rparr>)
     = ({}, (new_session 0)\<lparr>rtmpKey := Some ''abc'', idleInterval := False\<rparr>, [ClearInterval])
   \<and> activeKeys (fst (run demo server0
        [(0, Connection 0), (0, init_msg url_abc), (1, Connection 0), (1, init_msg url_abc),
         (1, WsClose)]))
     = {}
   \<and> map_option started (conns (fst (run demo server0
        [(0, Connection 0), (0, init_msg url_abc), (1, Connection 0), (1, init_msg url_abc),
         (1, WsClose)])) 0)
     = Some True"
  by (simp add: step_defs init_message_abc)

text \<open>
  C7, as claimed: in the streaming phase a failed write of a chunk is answered with
  one error notice and the close call. Line 174 writes only while the child's input
  is writable; a chunk that arrives when it is not is dropped: nothing is sent, the
  connection is not closed and the error flag stays unset.
\<close>

theorem C7_unwritable_input_counterexample:
  "conns (fst (run demo server0 streaming_trace)) 0 = Some streaming_session
   \<and> snd (run demo server0 (streaming_trace @ [(0, Message 5 [0x01] True Unwritable)]))
     = ([(0, Send (Ok ''waiting for WebM header'')),
         (0, Spawn ffArgs (Some url_abc)), (0, StdinWrite [0x1A, 0x45, 0xDF, 0xA3, 0x42]),
         (0, Send (Ok ''ffmpeg started''))], None)
   \<and> conns (fst (run demo server0 (streaming_trace @ [(0, Message 5 [0x01] True Unwritable)]))) 0
     = Some (streaming_session\<lparr>lastChunkAt := 5\<rparr>)
   \<and> ffmpegError (streaming_session\<lparr>lastChunkAt := 5\<rparr>) = False"
  using streaming_conn
  by (simp add: step_defs init_message_abc streaming_trace_def streaming_session_def)

text \<open>
  C7, amended: in the streaming phase, a write that throws is attempted once and
  answered with one error notice and the close call, and an error reported by the
  child's input stream is answered with one error notice and the close call; each
  sets the error flag, after which no write is made for the connection, whatever
  events follow on this connection or others. A chunk that arrives while the input
  is not writable is dropped with no notice, no close call and no flag.
\<close>

theorem C7_write_failure_is_terminal:
  assumes "conns S c = Some s" and "started s" and "headerReceived s"
    and "\<not> ffmpegError s" and "ffmpeg s = Some p"
  shows "server_step rt S (c, Message now msg True (Throws m))
         = Inr (S\<lparr>conns := (conns S)(c \<mapsto> s\<lparr>lastChunkAt := now, ffmpegError := True\<rparr>)\<rparr>,
                [(c, StdinWrite msg),
                 (c, Send (ErrorMessage ''FFmpeg stdin write error'' m)), (c, Close)])
       \<and> (\<forall>es e. (c, e) \<in> set (fst (snd (run rt
              (S\<lparr>conns := (conns S)(c \<mapsto> s\<lparr>lastChunkAt := now, ffmpegError := True\<rparr>)\<rparr>) es)))
            \<longrightarrow> \<not> is_StdinWrite e)
       \<and> server_step rt S (c, StdinError m)
         = Inr (S\<lparr>conns := (conns S)(c \<mapsto> s\<lparr>ffmpegError := True\<rparr>)\<rparr>,
                [(c, Send (ErrorMessage ''FFmpeg stdin error'' m)), (c, Close)])
       \<and> (\<forall>es e. (c, e) \<in> set (fst (snd (run rt
              (S\<lparr>conns := (conns S)(c \<mapsto> s\<lparr>ffmpegError := True\<rparr>)\<rparr>) es)))
            \<longrightarrow> \<not> is_StdinWrite e)
       \<and> server_step rt S (c, Message now msg True Unwritable)
         = Inr (S\<lparr>conns := (conns S)(c \<mapsto> s\<lparr>lastChunkAt := now\<rparr>)\<rparr>, [])"
proof (intro conjI allI impI)
  show "server_step rt S (c, Message now msg True (Throws m))
         = Inr (S\<lparr>conns := (conns S)(c \<mapsto> s\<lparr>lastChunkAt := now, ffmpegError := True\<rparr>)\<rparr>,
                [(c, StdinWrite msg),
                 (c, Send (ErrorMessage ''FFmpeg stdin write error'' m)), (c, Close)])"
    using assms by (simp add: handler_defs)
  show "server_step rt S (c, StdinError m)
         = Inr (S\<lparr>conns := (conns S)(c \<mapsto> s\<lparr>ffmpegError := True\<rparr>)\<rparr>,
                [(c, Send (ErrorMessage ''FFmpeg stdin error'' m)), (c, Close)])"
    using assms by (simp add: handler_defs)
  show "server_step rt S (c, Message now msg True Unwritable)
         = Inr (S\<lparr>conns := (conns S)(c \<mapsto> s\<lparr>lastChunkAt := now\<rparr>)\<rparr>, [])"
    using assms by (simp add: handler_defs)
next
  fix es e
  let ?s1 = "s\<lparr>lastChunkAt := now, ffmpegError := True\<rparr>"
  let ?S1 = "S\<lparr>conns := (conns S)(c \<mapsto> ?s1)\<rparr>"
  assume mem: "(c, e) \<in> set (fst (snd (run rt ?S1 es)))"
  have c: "conns ?S1 c = Some ?s1" by simp
  have h: "headerReceived ?s1" using assms(3) by simp
  have f: "ffmpegError ?s1" by simp
  from run_failed [OF run_projections c h f] mem show "\<not> is_StdinWrite e"
    by blast
next
  fix es e
  let ?s1 = "s\<lparr>ffmpegError := True\<rparr>"
  let ?S1 = "S\<lparr>conns := (conns S)(c \<mapsto> ?s1)\<rparr>"
  assume mem: "(c, e) \<in> set (fst (snd (run rt ?S1 es)))"
  have c: "conns ?S1 c = Some ?s1" by simp
  have h: "headerReceived ?s1" using assms(3) by simp
  have f: "ffmpegError ?s1" by simp
  from run_failed [OF run_projections c h f] mem show "\<not> is_StdinWrite e"
    by blast
qed

text \<open>The streaming connection 0: a throwing write or a stream error, then one more chunk.\<close>

theorem C7_write_failure_is_terminal_witness:
  "server_step demo (fst (run demo server0 streaming_trace))
      (0, Message 5 [0x01] True (Throws ''EPIPE''))
   = Inr ((fst (run demo server0 streaming_trace))
            \<lparr>conns := (conns (fst (run demo server0 streaming_trace)))
               (0 \<mapsto> streaming_session\<lparr>lastChunkAt := 5, ffmpegError := True\<rparr>)\<rparr>,
          [(0, StdinWrite [0x01]),
           (0, Send (ErrorMessage ''FFmpeg stdin write error'' ''EPIPE'')), (0, Close)])
   \<and> filter is_StdinWrite (effects_of 0 (fst (snd (run demo
          ((fst (run demo server0 streaming_trace))
            \<lparr>conns := (conns (fst (run demo server0 streaming_trace)))
               (0 \<mapsto> streaming_session\<lparr>lastChunkAt := 5, ffmpegError := True\<rparr>)\<rparr>)
          [(0, Message 6 [0x02] True Accepts)])))) = []
   \<and> server_step demo (fst (run demo server0 streaming_trace)) (0, StdinError ''EPIPE'')
   = Inr ((fst (run demo server0 streaming_trace))
            \<lparr>conns := (conns (fst (run demo server0 streaming_trace)))
               (0 \<mapsto> streaming_session\<lparr>ffmpegError := True\<rparr>)\<rparr>,
          [(0, Send (ErrorMessage ''FFmpeg stdin error'' ''EPIPE'')), (0, Close)])
   \<and> filter is_StdinWrite (effects_of 0 (fst (snd (run demo
          ((fst (run demo server0 streaming_trace))
            \<lparr>conns := (conns (fst (run demo server0 streaming_trace)))
               (0 \<mapsto> streaming_session\<lparr>ffmpegError := True\<rparr>)\<rparr>)
          [(0, Message 6 [0x02] True Accepts)])))) = []"
proof -
  have h2: "started streaming_session" and h3: "headerReceived streaming_session"
    and h4: "\<not> ffmpegError streaming_session"
    and h5: "ffmpeg streaming_session = Some (ChildProcess (Some url_abc))"
    by (simp_all add: streaming_session_def)
  note inst = C7_write_failure_is_terminal [OF streaming_conn h2 h3 h4 h5,
      of demo 5 "[0x01]" "''EPIPE''"]
  from inst have a: "server_step demo (fst (run demo server0 streaming_trace))
      (0, Message 5 [0x01] True (Throws ''EPIPE''))
   = Inr ((fst (run demo server0 streaming_trace))
            \<lparr>conns := (conns (fst (run demo server0 streaming_trace)))
               (0 \<mapsto> streaming_session\<lparr>lastChunkAt := 5, ffmpegError := True\<rparr>)\<rparr>,
          [(0, StdinWrite [0x01]),
           (0, Send (ErrorMessage ''FFmpeg stdin write error'' ''EPIPE'')), (0, Close)])"
    by blast
  from inst have "\<forall>e. (0, e) \<in> set (fst (snd (run demo
          ((fst (run demo server0 streaming_trace))
            \<lparr>conns := (conns (fst (run demo server0 streaming_trace)))
               (0 \<mapsto> streaming_session\<lparr>lastChunkAt := 5, ffmpegError := True\<rparr>)\<rparr>)
          [(0, Message 6 [0x02] True Accepts)])))
        \<longrightarrow> \<not> is_StdinWrite e"
    by blast
  then have b: "filter is_StdinWrite (effects_of 0 (fst (snd (run demo
          ((fst (run demo server0 streaming_trace))
            \<lparr>conns := (conns (fst (run demo server0 streaming_trace)))
               (0 \<mapsto> streaming_session\<lparr>lastChunkAt := 5, ffmpegError := True\<rparr>)\<rparr>)
          [(0, Message 6 [0x02] True Accepts)])))) = []"
    by (auto simp: effects_of_def filter_empty_conv)
  from inst have c: "server_step demo (fst (run demo server0 streaming_trace))
      (0, StdinError ''EPIPE'')
   = Inr ((fst (run demo server0 streaming_trace))
            \<lparr>conns := (conns (fst (run demo server0 streaming_trace)))
               (0 \<mapsto> streaming_session\<lparr>ffmpegError := True\<rparr>)\<rparr>,
          [(0, Send (ErrorMessage ''FFmpeg stdin error'' ''EPIPE'')), (0, Close)])"
    by blast
  from inst have "\<forall>e. (0, e) \<in> set (fst (snd (run demo
          ((fst (run demo server0 streaming_trace))
            \<lparr>conns := (conns (fst (run demo server0 streaming_trace)))
               (0 \<mapsto> streaming_session\<lparr>ffmpegError := True\<rparr>)\<rparr>)
          [(0, Message 6 [0x02] True Accepts)])))
        \<longrightarrow> \<not> is_StdinWrite e"
    by blast
  then have d: "filter is_StdinWrite (effects_of 0 (fst (snd (run demo
          ((fst (run demo server0 streaming_trace))
            \<lparr>conns := (conns (fst (run demo server0 streaming_trace)))
               (0 \<mapsto> streaming_session\<lparr>ffmpegError := True\<rparr>)\<rparr>)
          [(0, Message 6 [0x02] True Accepts)])))) = []"
    by (auto simp: effects_of_def filter_empty_conv)
  from a b c d show ?thesis by blast
qed

text \<open>
  C8. The key is claimed to be the final segment of the URL's path, with no further
  separator after the known prefix, as the comment of line 83 has it (keys are after
  the last slash). The pattern of line 84 captures everything after the first
  \<^verbatim>\<open>live2/\<close>, slashes included: for a URL with two segments after the prefix
  the key that is extracted and registered is both segments, not the last one.
\<close>

theorem C8_key_keeps_later_segments:
  "url_nested = ''rtmp://a.rtmp.youtube.com/live2/abc/def''
   \<and> match_live2 url_nested = Some ''abc/def''
   \<and> final_segment url_nested = ''def''
   \<and> activeKeys (fst (run demo server0 [(0, Connection 0), (0, init_msg url_nested)]))
       = {''abc/def''}
   \<and> snd (run demo server0 [(0, Connection 0), (0, init_msg url_nested)])
       = ([(0, Send (Ok ''waiting for WebM header''))], None)"
proof -
  have "final_segment url_nested = ''def''"
    by (simp add: final_segment_def url_nested_def)
  moreover have "url_nested = ''rtmp://a.rtmp.youtube.com/live2/abc/def''"
    by (simp add: url_nested_def)
  moreover have "activeKeys (fst (run demo server0 [(0, Connection 0), (0, init_msg url_nested)]))
       = {''abc/def''}"
    by (simp add: step_defs init_message_nested)
  moreover have "snd (run demo server0 [(0, Connection 0), (0, init_msg url_nested)])
       = ([(0, Send (Ok ''waiting for WebM header''))], None)"
    by (simp add: step_defs init_message_nested)
  ultimately show ?thesis
    using match_url_nested by simp
qed

text \<open>
  C9. On every trace from the start of the server, a connection whose header has
  not been validated has no child, and any number of interval callbacks, at any
  times, leave the whole server state unchanged and make no call.
\<close>

theorem C9_watchdog_idle_before_validation:
  assumes "run rt server0 es = (S, out, r)" and "conns S c = Some s"
    and "\<not> headerReceived s"
  shows "ffmpeg s = None \<and> run rt S (ticks c ts) = (S, [], None)"
proof -
  from reachable_inv [OF assms(1,2)] assms(3) have "ffmpeg s = None"
    by (simp add: session_inv_def)
  with run_ticks_idle [OF assms(2) this] show ?thesis by simp
qed

text \<open>Connection 0 after its init and the chunk 1A 45, with three interval callbacks.\<close>

theorem C9_watchdog_idle_before_validation_witness:
  "\<not> headerReceived validating_session
   \<and> ffmpeg validating_session = None
   \<and> run demo (fst (run demo server0 validating_trace)) (ticks 0 [5000, 25000, 9999999])
     = (fst (run demo server0 validating_trace), [], None)"
proof -
  have h1: "run demo server0 validating_trace
            = (fst (run demo server0 validating_trace),
               fst (snd (run demo server0 validating_trace)),
               snd (snd (run demo server0 validating_trace)))"
    by simp
  have nh: "\<not> headerReceived validating_session"
    by (simp add: validating_session_def)
  from C9_watchdog_idle_before_validation [OF h1 validating_conn nh, of "[5000, 25000, 9999999]"] nh
  show ?thesis by blast
qed

text \<open>
  C10. Before initialization the handler does the same for a message tagged binary
  and for the same bytes tagged text, and the message is not treated as stream
  data: nothing is buffered, spawned or written and the activity time is untouched.
\<close>

theorem C10_first_message_tag_ignored:
  assumes "\<not> started s"
  shows "on_message rt keys s now msg True st = on_message rt keys s now msg False st
       \<and> (\<forall>keys' s' out. on_message rt keys s now msg True st = Inr (keys', s', out) \<longrightarrow>
            initialBuffer s' = initialBuffer s \<and> lastChunkAt s' = lastChunkAt s
          \<and> headerReceived s' = headerReceived s \<and> ffmpeg s' = ffmpeg s
          \<and> (\<forall>e \<in> set out. \<not> is_Spawn e \<and> \<not> is_StdinWrite e))"
proof (intro conjI allI impI)
  have "init_message rt keys s msg True = init_message rt keys s msg False"
    by (simp add: init_message_def JSON_parse_def ToString_def)
  with assms show "on_message rt keys s now msg True st = on_message rt keys s now msg False st"
    by (simp add: on_message_def)
next
  fix keys' s' out
  assume "on_message rt keys s now msg True st = Inr (keys', s', out)"
  with assms have "init_message rt keys s msg True = Inr (keys', s', out)"
    by (simp add: on_message_def)
  note shape = init_message_shape [OF this]
  from shape show "initialBuffer s' = initialBuffer s" by blast
  from shape show "lastChunkAt s' = lastChunkAt s" by blast
  from shape show "headerReceived s' = headerReceived s" by blast
  from shape show "ffmpeg s' = ffmpeg s" by blast
  from shape show "\<forall>e \<in> set out. \<not> is_Spawn e \<and> \<not> is_StdinWrite e" by blast
qed

text \<open>A fresh session and the init for the key abc, tagged binary and tagged text.\<close>

theorem C10_first_message_tag_ignored_witness:
  "\<not> started (new_session 0)
   \<and> on_message demo {} (new_session 0) 7 (bytes_of (init_text url_abc)) True Accepts
     = on_message demo {} (new_session 0) 7 (bytes_of (init_text url_abc)) False Accepts
   \<and> on_message demo {} (new_session 0) 7 (bytes_of (init_text url_abc)) True Accepts
     = Inr ({''abc''},
            (new_session 0)\<lparr>rtmpKey := Some ''abc'', ws_rtmpUrl := Some url_abc, started := True\<rparr>,
            [Send (Ok ''waiting for WebM header'')])"
proof -
  have ns: "\<not> started (new_session 0)"
    by (simp add: new_session_def)
  have v: "on_message demo {} (new_session 0) 7 (bytes_of (init_text url_abc)) True Accepts
     = Inr ({''abc''},
            (new_session 0)\<lparr>rtmpKey := Some ''abc'', ws_rtmpUrl := Some url_abc, started := True\<rparr>,
            [Send (Ok ''waiting for WebM header'')])"
    using ns by (simp add: on_message_def init_message_abc)
  from C10_first_message_tag_ignored [OF ns, of demo "{}" 7 "bytes_of (init_text url_abc)" Accepts]
    ns v
  show ?thesis by blast
qed

end
